theory Spec2Isabelle
  imports Main "HOL-Library.AList"
begin

section \<open>Values\<close>

text \<open>
  The context store holds arbitrary JavaScript values (\<^verbatim>\<open>Map<string, any>\<close>). The
  values the service inspects are modelled by a datatype: the two nullish values,
  primitives, plain data objects (a list of own properties, read with the first
  binding of a key) and the two adapter singletons \<^verbatim>\<open>expressAdapter\<close> and
  \<^verbatim>\<open>fastifyAdapter\<close>, which \<^verbatim>\<open>setRequest\<close> stores in the scope.
  Numbers are integers. An object is given by the properties that a read finds on it:
  an inherited property that the program reads belongs in the list next to the own
  ones. The built-in properties of primitives (the length of a string, say) are
  outside the model and read as \<^verbatim>\<open>undefined\<close>.
\<close>

datatype adapter_kind = Express | Fastify

datatype adapter_type = TExpress | TFastify | TAuto

datatype jsval =
    JUndefined
  | JNull
  | JBool bool
  | JNum int
  | JStr string
  | JAdapter adapter_kind
  | JObj "(string \<times> jsval) list"

text \<open>
  Errors. The service throws plain \<^verbatim>\<open>Error\<close> objects that differ by message:
  \<^verbatim>\<open>'No active request context. ...'\<close> is \<open>NoActiveContext\<close>,
  \<^verbatim>\<open>'RequestContextService not initialized. ...'\<close> is \<open>NotInitialized\<close>.
  \<open>TypeError\<close> is what the runtime raises for a property read on \<^verbatim>\<open>null\<close> or
  \<^verbatim>\<open>undefined\<close>; \<open>Thrown v\<close> is a value thrown by user code (the setup hook).
\<close>

datatype error = NoActiveContext | NotInitialized | TypeError | Thrown jsval

text \<open>JavaScript truthiness (\<^verbatim>\<open>if (x)\<close>, \<^verbatim>\<open>x && ...\<close>, \<^verbatim>\<open>!x\<close>).\<close>

fun truthy :: "jsval \<Rightarrow> bool" where
  "truthy JUndefined = False"
| "truthy JNull = False"
| "truthy (JBool b) = b"
| "truthy (JNum n) = (n \<noteq> 0)"
| "truthy (JStr s) = (s \<noteq> [])"
| "truthy (JAdapter a) = True"
| "truthy (JObj fs) = True"

text \<open>
  \<^verbatim>\<open>current[key]\<close>: a property read. On \<^verbatim>\<open>null\<close> and \<^verbatim>\<open>undefined\<close> the runtime
  throws; on an object it yields the property or \<^verbatim>\<open>undefined\<close>.
\<close>

fun getProp :: "jsval \<Rightarrow> string \<Rightarrow> jsval" where
  "getProp (JObj fs) k = (case map_of fs k of None \<Rightarrow> JUndefined | Some v \<Rightarrow> v)"
| "getProp v k = JUndefined"

definition prop_access :: "jsval \<Rightarrow> string \<Rightarrow> error + jsval" where
  "prop_access v k =
     (if v = JUndefined \<or> v = JNull then Inl TypeError else Inr (getProp v k))"

section \<open>The context store engine\<close>

text \<open>
  A scope is the \<^verbatim>\<open>Map<string, any>\<close> created by \<^verbatim>\<open>run\<close>: an association list in
  insertion order with one binding per key (\<^verbatim>\<open>Map.set\<close> overwrites in place or
  appends, which is \<open>AList.update\<close>).

  The state of the service's \<^verbatim>\<open>AsyncLocalStorage\<close> at one point of execution:
  \<open>stores\<close> holds every map allocated so far (its index is its identity),
  \<open>ambient\<close> is the map that \<^verbatim>\<open>asyncLocalStorage.getStore()\<close> returns at this point,
  if any.
\<close>

type_synonym scope = "(string \<times> jsval) list"

record service =
  stores :: "scope list"
  ambient :: "nat option"

definition service_init :: service where
  "service_init = \<lparr>stores = [], ambient = None\<rparr>"

definition getStore :: "service \<Rightarrow> scope option" where
  "getStore s =
     (case ambient s of
        None \<Rightarrow> None
      | Some a \<Rightarrow> if a < length (stores s) then Some (stores s ! a) else None)"

definition putStore :: "scope \<Rightarrow> service \<Rightarrow> service" where
  "putStore m s =
     (case ambient s of
        None \<Rightarrow> s
      | Some a \<Rightarrow> s\<lparr>stores := (stores s)[a := m]\<rparr>)"

definition isActive :: "service \<Rightarrow> bool" where
  "isActive s = (getStore s \<noteq> None)"

text \<open>
  A call that may throw returns its outcome (\<open>Inl\<close> the error thrown, \<open>Inr\<close> the value
  returned) together with the state it leaves behind.
\<close>

type_synonym 'a result = "error + 'a"

text \<open>
  \<^verbatim>\<open>run(callback, initialStore?)\<close> creates a new map, seeds it from the entries of
  \<^verbatim>\<open>initialStore\<close>, and calls \<^verbatim>\<open>asyncLocalStorage.run(store, callback)\<close>: the new
  map is ambient while the callback executes and the previous ambient map (or none) is
  ambient again when \<^verbatim>\<open>run\<close> returns or throws. \<^verbatim>\<open>runAsync\<close> has the same body;
  its callback's outcome is the settlement of the promise it returns.
\<close>

definition seed :: "scope option \<Rightarrow> scope" where
  "seed initialStore =
     (case initialStore of
        None \<Rightarrow> []
      | Some entries \<Rightarrow> foldl (\<lambda>store (key, v). AList.update key v store) [] entries)"

definition enter :: "scope option \<Rightarrow> service \<Rightarrow> service" where
  "enter initialStore s =
     \<lparr>stores = stores s @ [seed initialStore], ambient = Some (length (stores s))\<rparr>"

definition run :: "(service \<Rightarrow> 'a \<times> service) \<Rightarrow> scope option \<Rightarrow> service \<Rightarrow> 'a \<times> service" where
  "run callback initialStore s =
     (case callback (enter initialStore s) of
        (r, s') \<Rightarrow> (r, s'\<lparr>ambient := ambient s\<rparr>))"

definition runAsync :: "(service \<Rightarrow> 'a \<times> service) \<Rightarrow> scope option \<Rightarrow> service \<Rightarrow> 'a \<times> service" where
  "runAsync callback initialStore s =
     (case callback (enter initialStore s) of
        (r, s') \<Rightarrow> (r, s'\<lparr>ambient := ambient s\<rparr>))"

definition set_ctx :: "string \<Rightarrow> jsval \<Rightarrow> service \<Rightarrow> unit result \<times> service" where
  "set_ctx key v s =
     (case getStore s of
        None \<Rightarrow> (Inl NoActiveContext, s)
      | Some store \<Rightarrow> (Inr (), putStore (AList.update key v store) s))"

definition get :: "string \<Rightarrow> service \<Rightarrow> jsval" where
  "get key s =
     (case getStore s of
        None \<Rightarrow> JUndefined
      | Some store \<Rightarrow> (case map_of store key of None \<Rightarrow> JUndefined | Some v \<Rightarrow> v))"

definition has :: "string \<Rightarrow> service \<Rightarrow> bool" where
  "has key s =
     (case getStore s of
        None \<Rightarrow> False
      | Some store \<Rightarrow> map_of store key \<noteq> None)"

definition delete_ctx :: "string \<Rightarrow> service \<Rightarrow> bool \<times> service" where
  "delete_ctx key s =
     (case getStore s of
        None \<Rightarrow> (False, s)
      | Some store \<Rightarrow> (map_of store key \<noteq> None, putStore (AList.delete key store) s))"

definition clear :: "service \<Rightarrow> service" where
  "clear s = (case getStore s of None \<Rightarrow> s | Some store \<Rightarrow> putStore [] s)"

text \<open>
  \<^verbatim>\<open>path.split('.')\<close>: the pieces between the dots; never an empty list.
\<close>

fun split_dot :: "string \<Rightarrow> string list" where
  "split_dot [] = [[]]"
| "split_dot (c # cs) =
     (if c = CHR ''.'' then [] # split_dot cs
      else (case split_dot cs of [] \<Rightarrow> [[c]] | p # ps \<Rightarrow> (c # p) # ps))"

text \<open>
  The loop of \<^verbatim>\<open>getByPath\<close> over \<^verbatim>\<open>parts[1..]\<close>: it stops when \<^verbatim>\<open>current\<close> is
  \<^verbatim>\<open>undefined\<close> or \<^verbatim>\<open>null\<close>, and the function returns \<^verbatim>\<open>current\<close>.
\<close>

fun walk :: "jsval \<Rightarrow> string list \<Rightarrow> jsval result" where
  "walk current [] = Inr current"
| "walk current (part # parts) =
     (if current \<noteq> JUndefined \<and> current \<noteq> JNull
      then (case prop_access current part of
              Inl e \<Rightarrow> Inl e
            | Inr v \<Rightarrow> walk v parts)
      else Inr current)"

definition getByPath :: "string \<Rightarrow> service \<Rightarrow> jsval result" where
  "getByPath path s =
     (if path = [] then Inr JUndefined
      else (case split_dot path of
              [] \<Rightarrow> Inr JUndefined
            | p0 # parts \<Rightarrow> walk (get p0 s) parts))"

text \<open>\<^verbatim>\<open>key.startsWith(prefix)\<close>.\<close>

definition startsWith :: "string \<Rightarrow> string \<Rightarrow> bool" where
  "startsWith key prefix = (take (length prefix) key = prefix)"

text \<open>
  \<^verbatim>\<open>getAll()\<close>: a fresh object that receives, in the map's order, every entry whose
  key does not start with two underscores. The object is an association list with one
  binding per key, as \<^verbatim>\<open>result[key] = value\<close> builds it.
\<close>

definition getAll :: "service \<Rightarrow> scope" where
  "getAll s =
     (case getStore s of
        None \<Rightarrow> []
      | Some store \<Rightarrow>
          foldl (\<lambda>result (key, v).
                   if \<not> startsWith key ''__'' then AList.update key v result else result)
            [] store)"

section \<open>Adapters\<close>

text \<open>
  \<^verbatim>\<open>detectAdapterType\<close>: a truthy request whose \<^verbatim>\<open>raw\<close> and \<^verbatim>\<open>server\<close> properties
  are both not \<^verbatim>\<open>undefined\<close> is a Fastify request. The reads happen only on a truthy
  value, so they cannot throw.
\<close>

definition detectAdapterType :: "jsval \<Rightarrow> adapter_kind" where
  "detectAdapterType request =
     (if truthy request \<and> getProp request ''raw'' \<noteq> JUndefined
         \<and> getProp request ''server'' \<noteq> JUndefined
      then Fastify else Express)"

definition getAdapter :: "adapter_type \<Rightarrow> jsval \<Rightarrow> adapter_kind" where
  "getAdapter type request =
     (if type = TAuto \<and> truthy request then
        (if detectAdapterType request = Fastify then Fastify else Express)
      else if type = TFastify then Fastify
      else Express)"

fun type_name :: "adapter_type \<Rightarrow> string" where
  "type_name TExpress = ''express''"
| "type_name TFastify = ''fastify''"
| "type_name TAuto = ''auto''"

fun kind_type :: "adapter_kind \<Rightarrow> adapter_type" where
  "kind_type Express = TExpress"
| "kind_type Fastify = TFastify"

section \<open>Request data in the scope\<close>

text \<open>The reserved keys \<^verbatim>\<open>INTERNAL_KEYS\<close>.\<close>

definition INTERNAL_KEYS_REQUEST :: string where
  "INTERNAL_KEYS_REQUEST = ''__request__''"

definition INTERNAL_KEYS_ADAPTER :: string where
  "INTERNAL_KEYS_ADAPTER = ''__adapter__''"

definition INTERNAL_KEYS_ADAPTER_TYPE :: string where
  "INTERNAL_KEYS_ADAPTER_TYPE = ''__adapter_type__''"

text \<open>
  \<^verbatim>\<open>setRequest\<close>: three calls of \<^verbatim>\<open>set\<close> in sequence, the adapter resolved between
  the second and the third; a throwing call ends the sequence.
\<close>

definition setRequest :: "jsval \<Rightarrow> adapter_type \<Rightarrow> service \<Rightarrow> unit result \<times> service" where
  "setRequest request adapterType s =
     (case set_ctx INTERNAL_KEYS_REQUEST request s of
        (Inl e, s1) \<Rightarrow> (Inl e, s1)
      | (Inr _, s1) \<Rightarrow>
          (case set_ctx INTERNAL_KEYS_ADAPTER_TYPE (JStr (type_name adapterType)) s1 of
             (Inl e, s2) \<Rightarrow> (Inl e, s2)
           | (Inr _, s2) \<Rightarrow>
               set_ctx INTERNAL_KEYS_ADAPTER (JAdapter (getAdapter adapterType request)) s2))"

definition getRequest :: "service \<Rightarrow> jsval" where
  "getRequest s = get INTERNAL_KEYS_REQUEST s"

section \<open>The process-wide instance\<close>

text \<open>
  The static field \<^verbatim>\<open>RequestContextService.instance\<close> starts undefined and
  \<^verbatim>\<open>onModuleInit\<close> stores the service object in it. A service object is identified
  by a number.
\<close>

record statics =
  instance_ref :: "nat option"

definition statics_init :: statics where
  "statics_init = \<lparr>instance_ref = None\<rparr>"

definition onModuleInit :: "nat \<Rightarrow> statics \<Rightarrow> statics" where
  "onModuleInit this c = c\<lparr>instance_ref := Some this\<rparr>"

definition getInstance :: "statics \<Rightarrow> nat result" where
  "getInstance c =
     (case instance_ref c of
        None \<Rightarrow> Inl NotInitialized
      | Some i \<Rightarrow> Inr i)"

definition hasInstance :: "statics \<Rightarrow> bool" where
  "hasInstance c = (instance_ref c \<noteq> None)"

section \<open>Scope initializers\<close>

text \<open>
  The module options the initializers read. An absent field (or an absent options
  object, which reads the same through \<^verbatim>\<open>this.options?.x\<close>) is \<open>None\<close>.

  The setup hook \<^verbatim>\<open>(contextService, request) => void | Promise<void>\<close> acts on the
  service and ends in one of six ways: it returns, it throws, it returns a native
  promise (\<^verbatim>\<open>result instanceof Promise\<close> holds) that is later fulfilled or rejected
  (\<open>Resolves\<close>, \<open>Rejects\<close>), or it returns an awaitable that is not an instance of
  \<^verbatim>\<open>Promise\<close>, which the structural type admits, and whose \<^verbatim>\<open>then\<close> fulfils or
  rejects when it is awaited (\<open>ThenableResolves\<close>, \<open>ThenableRejects\<close>). The model
  runs a returned awaitable to its settlement at the place where the initializer waits
  for it.
\<close>

datatype hook_result =
    Returns
  | Throws error
  | Resolves
  | Rejects error
  | ThenableResolves
  | ThenableRejects error

type_synonym hook = "jsval \<Rightarrow> service \<Rightarrow> hook_result \<times> service"

record options =
  opt_adapter :: "adapter_type option"
  opt_setRequest :: "bool option"
  opt_setup :: "hook option"

definition no_options :: options where
  "no_options = \<lparr>opt_adapter = None, opt_setRequest = None, opt_setup = None\<rparr>"

text \<open>
  \<^verbatim>\<open>ExpressContextMiddleware.use(req, res, next)\<close>. What the framework observes is
  either one call of \<^verbatim>\<open>next\<close> (with or without an error) or an exception that
  leaves \<^verbatim>\<open>use\<close>: the callback has no \<^verbatim>\<open>try\<close>, and \<^verbatim>\<open>.then\<close> and \<^verbatim>\<open>.catch\<close>
  are attached only when \<^verbatim>\<open>result instanceof Promise\<close> holds. Any other result,
  an awaitable that is not a native promise included, falls through to the plain
  \<^verbatim>\<open>next()\<close> and is not waited for.
\<close>

datatype mw_outcome = NextCalled "error option" | UseThrew error

definition use_callback :: "options \<Rightarrow> jsval \<Rightarrow> service \<Rightarrow> mw_outcome \<times> service" where
  "use_callback opts req s =
     (case (if opt_setRequest opts \<noteq> Some False
            then setRequest req (case opt_adapter opts of None \<Rightarrow> TExpress | Some a \<Rightarrow> a) s
            else (Inr (), s)) of
        (Inl e, s1) \<Rightarrow> (UseThrew e, s1)
      | (Inr _, s1) \<Rightarrow>
          (case opt_setup opts of
             None \<Rightarrow> (NextCalled None, s1)
           | Some setup \<Rightarrow>
               (case setup req s1 of
                  (Throws e, s2) \<Rightarrow> (UseThrew e, s2)
                | (Resolves, s2) \<Rightarrow> (NextCalled None, s2)
                | (Rejects e, s2) \<Rightarrow> (NextCalled (Some e), s2)
                | (ThenableResolves, s2) \<Rightarrow> (NextCalled None, s2)
                | (ThenableRejects e, s2) \<Rightarrow> (NextCalled None, s2)
                | (Returns, s2) \<Rightarrow> (NextCalled None, s2))))"

definition use :: "options \<Rightarrow> jsval \<Rightarrow> service \<Rightarrow> mw_outcome \<times> service" where
  "use opts req s = run (use_callback opts req) None s"

text \<open>
  \<^verbatim>\<open>RequestContextGuard.canActivate\<close>. The source holds two versions of the class;
  this is the later one, which first looks for an existing store and on which the
  module wiring relies when it registers the guard next to the middleware (the earlier
  one opens a scope unconditionally). Its result is the settlement of the promise it returns. Inside the new scope
  the body is wrapped in \<^verbatim>\<open>try { ... resolve(true) } catch (error) { reject(error) }\<close>,
  and the hook is awaited.
\<close>

datatype 'a promise = Fulfilled 'a | Rejected error

definition configuredAdapterType :: "options \<Rightarrow> jsval \<Rightarrow> adapter_type" where
  "configuredAdapterType opts request =
     (case opt_adapter opts of
        None \<Rightarrow> kind_type (detectAdapterType request)
      | Some TAuto \<Rightarrow> kind_type (detectAdapterType request)
      | Some a \<Rightarrow> a)"

definition canActivate_callback :: "options \<Rightarrow> jsval \<Rightarrow> service \<Rightarrow> bool promise \<times> service" where
  "canActivate_callback opts request s =
     (case (if opt_setRequest opts \<noteq> Some False
            then setRequest request (configuredAdapterType opts request) s
            else (Inr (), s)) of
        (Inl e, s1) \<Rightarrow> (Rejected e, s1)
      | (Inr _, s1) \<Rightarrow>
          (case opt_setup opts of
             None \<Rightarrow> (Fulfilled True, s1)
           | Some setup \<Rightarrow>
               (case setup request s1 of
                  (Throws e, s2) \<Rightarrow> (Rejected e, s2)
                | (Rejects e, s2) \<Rightarrow> (Rejected e, s2)
                | (ThenableRejects e, s2) \<Rightarrow> (Rejected e, s2)
                | (Resolves, s2) \<Rightarrow> (Fulfilled True, s2)
                | (ThenableResolves, s2) \<Rightarrow> (Fulfilled True, s2)
                | (Returns, s2) \<Rightarrow> (Fulfilled True, s2))))"

definition canActivate :: "options \<Rightarrow> jsval \<Rightarrow> service \<Rightarrow> bool promise \<times> service" where
  "canActivate opts request s =
     (case getStore s of
        Some existingStore \<Rightarrow> (Fulfilled True, s)
      | None \<Rightarrow> run (canActivate_callback opts request) None s)"

text \<open>
  \<^verbatim>\<open>RequestContextInterceptor.intercept\<close>, observed through one subscription to the
  observable it returns. An observable's behaviour is the list of values it emits and
  how it ends: completion (\<open>None\<close>) or an error. \<open>handle\<close> is the subscription to
  \<^verbatim>\<open>next.handle()\<close>, whose three events are forwarded unchanged.
\<close>

type_synonym observed = "jsval list \<times> error option"

definition intercept_callback ::
    "options \<Rightarrow> jsval \<Rightarrow> (service \<Rightarrow> observed \<times> service) \<Rightarrow> service \<Rightarrow> observed \<times> service" where
  "intercept_callback opts request handle s =
     (case (if opt_setRequest opts \<noteq> Some False
            then setRequest request (configuredAdapterType opts request) s
            else (Inr (), s)) of
        (Inl e, s1) \<Rightarrow> (([], Some e), s1)
      | (Inr _, s1) \<Rightarrow>
          (case opt_setup opts of
             None \<Rightarrow> handle s1
           | Some setup \<Rightarrow>
               (case setup request s1 of
                  (Throws e, s2) \<Rightarrow> (([], Some e), s2)
                | (Rejects e, s2) \<Rightarrow> (([], Some e), s2)
                | (ThenableRejects e, s2) \<Rightarrow> (([], Some e), s2)
                | (Resolves, s2) \<Rightarrow> handle s2
                | (ThenableResolves, s2) \<Rightarrow> handle s2
                | (Returns, s2) \<Rightarrow> handle s2)))"

definition intercept ::
    "options \<Rightarrow> jsval \<Rightarrow> (service \<Rightarrow> observed \<times> service) \<Rightarrow> service \<Rightarrow> observed \<times> service" where
  "intercept opts request handle s = run (intercept_callback opts request handle) None s"

text \<open>
  The state in which an initializer that opens a scope invokes the hook: the new scope
  is ambient and, unless \<^verbatim>\<open>setRequest\<close> is switched off, holds the request data.
\<close>

definition hook_entry :: "options \<Rightarrow> adapter_type \<Rightarrow> jsval \<Rightarrow> service \<Rightarrow> service" where
  "hook_entry opts adapterType request s =
     (if opt_setRequest opts \<noteq> Some False
      then snd (setRequest request adapterType (enter None s))
      else enter None s)"

section \<open>Concurrent callbacks\<close>

text \<open>
  Several \<^verbatim>\<open>run\<close> or \<^verbatim>\<open>runAsync\<close> callbacks can be in progress at once: the
  event loop executes one piece of one callback at a time and may switch to another
  callback wherever a callback suspends. A callback is the sequence of calls it makes
  on the service; \<open>AAwait\<close> is a suspension point with no effect of its own. The
  model lets the event loop switch between any two actions, which covers every
  placement of the suspension points.

  A task is a callback in progress: the map that \<^verbatim>\<open>run\<close> created for it, the
  actions it has not executed yet, and what its calls have returned so far (the
  value of each \<^verbatim>\<open>get\<close>, the boolean of each \<^verbatim>\<open>delete\<close>, an error thrown). A
  system is the maps allocated so far and the tasks in progress.
\<close>

datatype action = ASet string jsval | AGet string | ADelete string | AClear | AAwait




text \<open>One action, executed by the service's own operations on the state it runs in.\<close>

fun perform :: "action \<Rightarrow> service \<Rightarrow> jsval result option \<times> service" where
  "perform (ASet key v) s =
     (case set_ctx key v s of
        (Inl e, s') \<Rightarrow> (Some (Inl e), s')
      | (Inr _, s') \<Rightarrow> (None, s'))"
| "perform (AGet key) s = (Some (Inr (get key s)), s)"
| "perform (ADelete key) s =
     (case delete_ctx key s of (b, s') \<Rightarrow> (Some (Inr (JBool b)), s'))"
| "perform AClear s = (None, clear s)"
| "perform AAwait s = (None, s)"







section \<open>Example inputs\<close>

text \<open>
  A service with one ambient scope holding a user entry, two request objects (the
  second carries the \<^verbatim>\<open>raw\<close> and \<^verbatim>\<open>server\<close> properties of a Fastify request), and
  four setup hooks: one throws, one returns a native promise that rejects, one returns
  a rejecting awaitable that is not a native promise, one stores the request id header
  in the scope.
\<close>

definition example_service :: service where
  "example_service = \<lparr>stores = [[(''user'', JNum 1)]], ambient = Some 0\<rparr>"

definition example_request :: jsval where
  "example_request = JObj [(''headers'', JObj [(''x-request-id'', JStr ''abc-123'')])]"

definition fastify_request :: jsval where
  "fastify_request = JObj [(''raw'', JObj []), (''server'', JObj []), (''headers'', JObj [])]"

definition throwing_hook :: hook where
  "throwing_hook = (\<lambda>req s. (Throws (Thrown (JStr ''boom'')), s))"

definition rejecting_hook :: hook where
  "rejecting_hook = (\<lambda>req s. (Rejects (Thrown (JStr ''boom'')), s))"

definition thenable_hook :: hook where
  "thenable_hook = (\<lambda>req s. (ThenableRejects (Thrown (JStr ''boom'')), s))"

definition marking_hook :: hook where
  "marking_hook = (\<lambda>req s. (Returns, snd (set_ctx ''requestId'' (getProp (getProp req ''headers'') ''x-request-id'') s)))"



section \<open>Basic facts about the engine\<close>

lemma getStore_putStore: "isActive s \<Longrightarrow> getStore (putStore m s) = Some m"
  by (auto simp: isActive_def getStore_def putStore_def split: option.splits if_splits)

lemma getStore_enter: "getStore (enter i s) = Some (seed i)"
  by (simp add: getStore_def enter_def)

lemma set_ctx_inactive: "\<not> isActive s \<Longrightarrow> set_ctx k v s = (Inl NoActiveContext, s)"
  by (simp add: isActive_def set_ctx_def)

lemma set_ctx_active:
  "getStore s = Some m \<Longrightarrow> set_ctx k v s = (Inr (), putStore (AList.update k v m) s)"
  by (simp add: set_ctx_def)

lemma isActive_putStore: "isActive s \<Longrightarrow> isActive (putStore m s)"
  by (simp add: getStore_putStore isActive_def)

lemma setRequest_active: "isActive s \<Longrightarrow> fst (setRequest r t s) = Inr ()"
  by (auto simp: setRequest_def set_ctx_def isActive_def getStore_putStore split: option.splits)


lemma get_after_set: "isActive s \<Longrightarrow> get k (snd (set_ctx k v s)) = v"
  by (auto simp: set_ctx_def get_def isActive_def getStore_putStore update_conv' split: option.splits)

lemma has_after_set: "isActive s \<Longrightarrow> has k (snd (set_ctx k v s))"
  by (auto simp: set_ctx_def has_def isActive_def getStore_putStore update_conv' split: option.splits)

lemma getAll_fold_keys:
  "fst ` set (foldl (\<lambda>result (key, v).
                      if \<not> startsWith key ''__'' then AList.update key v result else result)
                acc store)
   \<subseteq> fst ` set acc \<union> {k. \<not> startsWith k ''__''}"
proof (induction store arbitrary: acc)
  case Nil
  then show ?case by simp
next
  case (Cons p store)
  obtain key v where p: "p = (key, v)" by (cases p)
  show ?case
  proof (cases "startsWith key ''__''")
    case True
    with Cons.IH [of acc] p show ?thesis by simp
  next
    case False
    with Cons.IH [of "AList.update key v acc"] p show ?thesis
      by (auto simp: dom_update)
  qed
qed

lemma getAll_no_internal: "startsWith k ''__'' \<Longrightarrow> k \<notin> fst ` set (getAll s)"
proof (cases "getStore s")
  case None
  then show ?thesis by (simp add: getAll_def)
next
  case (Some store)
  assume "startsWith k ''__''"
  with getAll_fold_keys [of "[]" store] Some show ?thesis
    by (auto simp: getAll_def)
qed

lemma getAll_fold_lookup:
  "\<not> startsWith k ''__'' \<Longrightarrow> distinct (map fst store) \<Longrightarrow>
   map_of (foldl (\<lambda>result (key, v).
                    if \<not> startsWith key ''__'' then AList.update key v result else result)
             acc store) k
   = (case map_of store k of Some v \<Rightarrow> Some v | None \<Rightarrow> map_of acc k)"
proof (induction store arbitrary: acc)
  case Nil
  then show ?case by simp
next
  case (Cons p store)
  obtain key v where p: "p = (key, v)" by (cases p)
  from Cons.prems p have d: "distinct (map fst store)" and nk: "key \<notin> fst ` set store"
    by auto
  show ?case
  proof (cases "key = k")
    case True
    with nk have "map_of store k = None" by (simp add: map_of_eq_None_iff)
    with Cons.IH [OF Cons.prems(1) d, of "AList.update key v acc"] Cons.prems(1) p True
    show ?thesis by (simp add: update_conv')
  next
    case False
    with Cons.IH [OF Cons.prems(1) d] p show ?thesis
      by (auto simp: update_conv' split: option.splits)
  qed
qed

lemma getAll_lookup:
  "getStore s = Some store \<Longrightarrow> distinct (map fst store) \<Longrightarrow> \<not> startsWith k ''__'' \<Longrightarrow>
   map_of (getAll s) k = map_of store k"
  by (simp add: getAll_def getAll_fold_lookup split: option.splits)

text \<open>
  A map has one binding per key: the scope that \<^verbatim>\<open>run\<close> creates has, and \<^verbatim>\<open>set\<close>
  keeps it so.
\<close>

lemma seed_fold_distinct:
  "distinct (map fst acc) \<Longrightarrow>
   distinct (map fst (foldl (\<lambda>store (key, v). AList.update key v store) acc entries))"
proof (induction entries arbitrary: acc)
  case Nil
  then show ?case by simp
next
  case (Cons p entries)
  obtain key v where "p = (key, v)" by (cases p)
  with Cons.IH [of "AList.update key v acc"] Cons.prems show ?case
    by (simp add: distinct_update)
qed

lemma seed_distinct: "distinct (map fst (seed initialStore))"
  by (cases initialStore) (simp_all add: seed_def seed_fold_distinct)

lemma set_ctx_keeps_distinct:
  "getStore s = Some m \<Longrightarrow> distinct (map fst m) \<Longrightarrow>
   \<exists>m'. getStore (snd (set_ctx k v s)) = Some m' \<and> distinct (map fst m')"
  by (simp add: set_ctx_def getStore_putStore isActive_def distinct_update)

lemma walk_total: "\<exists>v. walk c parts = Inr v"
  by (induction parts arbitrary: c) (auto simp: prop_access_def)

lemma getByPath_never_throws: "\<exists>v. getByPath path s = Inr v"
  by (auto simp: getByPath_def walk_total split: list.splits)

lemma getProp_defined_truthy: "getProp r k \<noteq> JUndefined \<Longrightarrow> truthy r"
  by (cases r) auto

lemma internal_keys_prefixed:
  "startsWith INTERNAL_KEYS_REQUEST ''__''" "startsWith INTERNAL_KEYS_ADAPTER ''__''"
  "startsWith INTERNAL_KEYS_ADAPTER_TYPE ''__''"
  by (simp_all add: startsWith_def INTERNAL_KEYS_REQUEST_def INTERNAL_KEYS_ADAPTER_def
      INTERNAL_KEYS_ADAPTER_TYPE_def)

lemma isActive_example: "isActive example_service"
  by (simp add: isActive_def getStore_def example_service_def)

lemma not_isActive_init: "\<not> isActive service_init"
  by (simp add: isActive_def getStore_def service_init_def)

lemma has_set_ctx_other: "has k s \<Longrightarrow> has k (snd (set_ctx k' v s))"
  by (auto simp: set_ctx_def has_def isActive_def getStore_putStore update_conv' split: option.splits)

lemma isActive_set_ctx: "isActive s \<Longrightarrow> isActive (snd (set_ctx k v s))"
  by (auto simp: set_ctx_def isActive_def getStore_putStore split: option.splits)

lemma setRequest_unfold:
  "isActive s \<Longrightarrow>
   snd (setRequest r t s)
   = snd (set_ctx INTERNAL_KEYS_ADAPTER (JAdapter (getAdapter t r))
        (snd (set_ctx INTERNAL_KEYS_ADAPTER_TYPE (JStr (type_name t))
           (snd (set_ctx INTERNAL_KEYS_REQUEST r s)))))"
  by (auto simp: setRequest_def set_ctx_def isActive_def getStore_putStore split: option.splits)

lemma has_after_setRequest:
  assumes "isActive s"
  shows "has INTERNAL_KEYS_REQUEST (snd (setRequest r t s))"
    and "has INTERNAL_KEYS_ADAPTER_TYPE (snd (setRequest r t s))"
    and "has INTERNAL_KEYS_ADAPTER (snd (setRequest r t s))"
proof -
  let ?s1 = "snd (set_ctx INTERNAL_KEYS_REQUEST r s)"
  let ?s2 = "snd (set_ctx INTERNAL_KEYS_ADAPTER_TYPE (JStr (type_name t)) ?s1)"
  have a1: "isActive ?s1" using assms by (rule isActive_set_ctx)
  have a2: "isActive ?s2" using a1 by (rule isActive_set_ctx)
  have h1: "has INTERNAL_KEYS_REQUEST ?s1" using assms by (rule has_after_set)
  have h2: "has INTERNAL_KEYS_ADAPTER_TYPE ?s2" using a1 by (rule has_after_set)
  show "has INTERNAL_KEYS_REQUEST (snd (setRequest r t s))"
    using h1 by (simp add: setRequest_unfold [OF assms] has_set_ctx_other)
  show "has INTERNAL_KEYS_ADAPTER_TYPE (snd (setRequest r t s))"
    using h2 by (simp add: setRequest_unfold [OF assms] has_set_ctx_other)
  show "has INTERNAL_KEYS_ADAPTER (snd (setRequest r t s))"
    using a2 by (simp add: setRequest_unfold [OF assms] has_after_set)
qed

lemma isActive_enter: "isActive (enter i s)"
  by (simp add: isActive_def getStore_enter)

lemma storeRequest_entry:
  "(if opt_setRequest opts \<noteq> Some False then setRequest req t (enter None s)
    else (Inr (), enter None s))
   = (Inr (), hook_entry opts t req s)"
  using setRequest_active [OF isActive_enter, of req t None s]
  by (simp add: hook_entry_def prod_eq_iff)

lemma use_with_hook:
  "opt_setup opts = Some setup \<Longrightarrow>
   fst (use opts req s)
   = (case fst (setup req (hook_entry opts (case opt_adapter opts of None \<Rightarrow> TExpress | Some a \<Rightarrow> a) req s)) of
        Throws e \<Rightarrow> UseThrew e
      | Rejects e \<Rightarrow> NextCalled (Some e)
      | Resolves \<Rightarrow> NextCalled None
      | ThenableResolves \<Rightarrow> NextCalled None
      | ThenableRejects e \<Rightarrow> NextCalled None
      | Returns \<Rightarrow> NextCalled None)"
  by (simp add: use_def run_def use_callback_def storeRequest_entry
      split: prod.splits hook_result.splits)

lemma canActivate_with_hook:
  "opt_setup opts = Some setup \<Longrightarrow> \<not> isActive s \<Longrightarrow>
   fst (canActivate opts req s)
   = (case fst (setup req (hook_entry opts (configuredAdapterType opts req) req s)) of
        Throws e \<Rightarrow> Rejected e
      | Rejects e \<Rightarrow> Rejected e
      | ThenableRejects e \<Rightarrow> Rejected e
      | Resolves \<Rightarrow> Fulfilled True
      | ThenableResolves \<Rightarrow> Fulfilled True
      | Returns \<Rightarrow> Fulfilled True)"
  by (simp add: canActivate_def isActive_def run_def canActivate_callback_def storeRequest_entry
      split: prod.splits hook_result.splits)

lemma intercept_with_hook:
  "opt_setup opts = Some setup \<Longrightarrow>
   fst (intercept opts req handle s)
   = (case setup req (hook_entry opts (configuredAdapterType opts req) req s) of
        (Throws e, s2) \<Rightarrow> ([], Some e)
      | (Rejects e, s2) \<Rightarrow> ([], Some e)
      | (ThenableRejects e, s2) \<Rightarrow> ([], Some e)
      | (Resolves, s2) \<Rightarrow> fst (handle s2)
      | (ThenableResolves, s2) \<Rightarrow> fst (handle s2)
      | (Returns, s2) \<Rightarrow> fst (handle s2))"
  by (auto simp: intercept_def run_def intercept_callback_def storeRequest_entry
      split: prod.splits hook_result.splits)

lemma run_restores_ambient: "ambient (snd (run callback initialStore s)) = ambient s"
  by (simp add: run_def split: prod.splits)

lemma walk_nullish: "c = JUndefined \<or> c = JNull \<Longrightarrow> walk c parts = Inr c"
  by (cases parts) auto

section \<open>Facts about concurrent callbacks\<close>


lemma perform_stores_none: "ambient s = None \<Longrightarrow> stores (snd (perform a s)) = stores s"
  by (cases a) (auto simp: set_ctx_def delete_ctx_def clear_def putStore_def getStore_def)























section \<open>Isolation of concurrent callbacks\<close>



section \<open>Properties of the context store\<close>

text \<open>
  C2. With no ambient scope, \<^verbatim>\<open>set(k, v)\<close> raises the NoActiveContext error for every
  key and value and changes nothing, and \<^verbatim>\<open>get(k)\<close> returns \<^verbatim>\<open>undefined\<close>, a
  value and not an error.
\<close>

theorem set_get_outside_scope:
  "\<not> isActive s \<Longrightarrow> set_ctx k v s = (Inl NoActiveContext, s) \<and> get k s = JUndefined"
  by (simp add: isActive_def set_ctx_def get_def)

theorem set_get_outside_scope_witness:
  "\<not> isActive service_init
   \<and> set_ctx ''k'' (JNum 1) service_init = (Inl NoActiveContext, service_init)
   \<and> get ''k'' service_init = JUndefined"
  using set_get_outside_scope [OF not_isActive_init, of "''k''" "JNum 1"] not_isActive_init
  by simp

text \<open>
  \<^verbatim>\<open>getByPath\<close> never throws, and the three paths of the specification's example
  evaluate as follows: the stored number, and \<^verbatim>\<open>undefined\<close> when the first segment is
  missing or no scope is ambient.
\<close>

lemma getByPath_examples:
  "getByPath ''a.b.c'' \<lparr>stores = [[(''a'', JObj [(''b'', JObj [(''c'', JNum 5)])])]], ambient = Some 0\<rparr> = Inr (JNum 5)"
  "getByPath ''a.b.c'' \<lparr>stores = [[]], ambient = Some 0\<rparr> = Inr JUndefined"
  "getByPath ''a.b.c'' service_init = Inr JUndefined"
  by (simp_all add: getByPath_def get_def getStore_def prop_access_def service_init_def)

text \<open>
  C3. The claim says that \<^verbatim>\<open>getByPath\<close> returns \<^verbatim>\<open>undefined\<close> as soon as an
  intermediate value is \<^verbatim>\<open>null\<close>. The loop stops there, but the function then returns
  the value it stopped at: with \<^verbatim>\<open>a = {b: null}\<close> in the ambient scope,
  \<^verbatim>\<open>getByPath('a.b.c')\<close> returns \<^verbatim>\<open>null\<close>, not \<^verbatim>\<open>undefined\<close>.
\<close>

theorem getByPath_null_intermediate:
  "getByPath ''a.b.c'' \<lparr>stores = [[(''a'', JObj [(''b'', JNull)])]], ambient = Some 0\<rparr> = Inr JNull"
  by (simp add: getByPath_def get_def getStore_def prop_access_def)

text \<open>
  C6. For every state, the mapping returned by \<^verbatim>\<open>getAll\<close> has none of the three
  reserved keys, also in the state that \<^verbatim>\<open>setRequest\<close> leaves after storing all three
  in the ambient scope; with no ambient scope \<^verbatim>\<open>getAll\<close> returns the empty mapping;
  and for a key that does not begin with two underscores the mapping holds exactly
  what the ambient scope binds to it.
\<close>

theorem getAll_excludes_reserved_keys:
  "INTERNAL_KEYS_REQUEST \<notin> fst ` set (getAll s)
   \<and> INTERNAL_KEYS_ADAPTER \<notin> fst ` set (getAll s)
   \<and> INTERNAL_KEYS_ADAPTER_TYPE \<notin> fst ` set (getAll s)
   \<and> (isActive s \<longrightarrow>
        has INTERNAL_KEYS_REQUEST (snd (setRequest request t s))
        \<and> has INTERNAL_KEYS_ADAPTER (snd (setRequest request t s))
        \<and> has INTERNAL_KEYS_ADAPTER_TYPE (snd (setRequest request t s))
        \<and> INTERNAL_KEYS_REQUEST \<notin> fst ` set (getAll (snd (setRequest request t s)))
        \<and> INTERNAL_KEYS_ADAPTER \<notin> fst ` set (getAll (snd (setRequest request t s)))
        \<and> INTERNAL_KEYS_ADAPTER_TYPE \<notin> fst ` set (getAll (snd (setRequest request t s))))
   \<and> (\<not> isActive s \<longrightarrow> getAll s = [])
   \<and> (getStore s = Some store \<and> distinct (map fst store) \<and> \<not> startsWith k ''__''
        \<longrightarrow> map_of (getAll s) k = map_of store k)"
proof -
  have none: "\<not> isActive s \<Longrightarrow> getAll s = []"
    by (simp add: isActive_def getAll_def)
  show ?thesis
    using none
    by (simp add: getAll_no_internal internal_keys_prefixed has_after_setRequest getAll_lookup)
qed

theorem getAll_excludes_reserved_keys_witness:
  "isActive example_service
   \<and> has INTERNAL_KEYS_REQUEST (snd (setRequest example_request TAuto example_service))
   \<and> INTERNAL_KEYS_REQUEST \<notin> fst ` set (getAll (snd (setRequest example_request TAuto example_service)))
   \<and> INTERNAL_KEYS_ADAPTER \<notin> fst ` set (getAll (snd (setRequest example_request TAuto example_service)))
   \<and> INTERNAL_KEYS_ADAPTER_TYPE \<notin> fst ` set (getAll (snd (setRequest example_request TAuto example_service)))
   \<and> \<not> isActive service_init \<and> getAll service_init = []
   \<and> getStore example_service = Some [(''user'', JNum 1)]
   \<and> distinct (map fst [(''user'', JNum 1)])
   \<and> \<not> startsWith ''user'' ''__''
   \<and> map_of (getAll example_service) ''user'' = Some (JNum 1)"
proof -
  have g: "getStore example_service = Some [(''user'', JNum 1)]"
    by (simp add: getStore_def example_service_def)
  have u: "\<not> startsWith ''user'' ''__''" by (simp add: startsWith_def)
  from getAll_excludes_reserved_keys
         [of example_service example_request TAuto "[(''user'', JNum 1)]" "''user''"]
       getAll_excludes_reserved_keys [of service_init]
       isActive_example not_isActive_init g u
  show ?thesis by simp
qed

text \<open>
  C9. A key that begins with two underscores, reserved or not, is never a key of the
  mapping returned by \<^verbatim>\<open>getAll\<close>, although a value stored under it by \<^verbatim>\<open>set\<close> in
  an ambient scope is returned by \<^verbatim>\<open>get\<close> and reported by \<^verbatim>\<open>has\<close>.
\<close>

theorem getAll_hides_prefixed_keys:
  "startsWith k ''__'' \<Longrightarrow> isActive s \<Longrightarrow>
     fst (set_ctx k v s) = Inr ()
     \<and> get k (snd (set_ctx k v s)) = v
     \<and> has k (snd (set_ctx k v s))
     \<and> k \<notin> fst ` set (getAll (snd (set_ctx k v s)))
     \<and> (\<forall>s'. k \<notin> fst ` set (getAll s'))"
  by (auto simp: get_after_set has_after_set getAll_no_internal)
    (auto simp: set_ctx_def isActive_def split: option.splits)

theorem getAll_hides_prefixed_keys_witness:
  "startsWith ''__myKey'' ''__'' \<and> isActive example_service
   \<and> get ''__myKey'' (snd (set_ctx ''__myKey'' (JNum 7) example_service)) = JNum 7
   \<and> has ''__myKey'' (snd (set_ctx ''__myKey'' (JNum 7) example_service))
   \<and> ''__myKey'' \<notin> fst ` set (getAll (snd (set_ctx ''__myKey'' (JNum 7) example_service)))"
proof -
  have p: "startsWith ''__myKey'' ''__''" by (simp add: startsWith_def)
  from getAll_hides_prefixed_keys [OF p isActive_example, of "JNum 7"] p isActive_example
  show ?thesis by simp
qed

text \<open>
  C10. With no ambient scope, \<^verbatim>\<open>setRequest\<close> raises the NoActiveContext error of its
  first \<^verbatim>\<open>set\<close> and leaves the state as it was, for every request and adapter type.
\<close>

theorem setRequest_outside_scope:
  "\<not> isActive s \<Longrightarrow> setRequest request adapterType s = (Inl NoActiveContext, s)"
  by (simp add: setRequest_def set_ctx_inactive)

theorem setRequest_outside_scope_witness:
  "\<not> isActive service_init
   \<and> setRequest example_request TAuto service_init = (Inl NoActiveContext, service_init)"
  using setRequest_outside_scope [OF not_isActive_init] not_isActive_init by simp

text \<open>
  C7. \<^verbatim>\<open>getInstance\<close> fails with the NotInitialized error while the static field is
  still unset, and returns the service once \<^verbatim>\<open>onModuleInit\<close> has run.
\<close>

theorem getInstance_before_after_init:
  "getInstance statics_init = Inl NotInitialized
   \<and> getInstance (onModuleInit this c) = Inr this"
  by (simp add: getInstance_def statics_init_def onModuleInit_def)

section \<open>Properties of the adapters and initializers\<close>

text \<open>
  C8. A request whose \<^verbatim>\<open>raw\<close> and \<^verbatim>\<open>server\<close> properties are both defined is
  detected as Fastify; a request that lacks one of them, and \<^verbatim>\<open>null\<close> and
  \<^verbatim>\<open>undefined\<close>, are detected as Express.
\<close>

theorem detectAdapterType_marker:
  "(getProp request ''raw'' \<noteq> JUndefined \<and> getProp request ''server'' \<noteq> JUndefined
      \<longrightarrow> detectAdapterType request = Fastify)
   \<and> (getProp request ''raw'' = JUndefined \<or> getProp request ''server'' = JUndefined
      \<longrightarrow> detectAdapterType request = Express)
   \<and> detectAdapterType JNull = Express
   \<and> detectAdapterType JUndefined = Express"
  using getProp_defined_truthy [of request "''raw''"]
  by (auto simp: detectAdapterType_def)

theorem detectAdapterType_marker_witness:
  "getProp fastify_request ''raw'' \<noteq> JUndefined
   \<and> getProp fastify_request ''server'' \<noteq> JUndefined
   \<and> detectAdapterType fastify_request = Fastify
   \<and> getProp example_request ''raw'' = JUndefined
   \<and> detectAdapterType example_request = Express"
  using detectAdapterType_marker [of fastify_request] detectAdapterType_marker [of example_request]
  by (simp add: fastify_request_def example_request_def)

text \<open>
  C5. When a scope is already ambient, the guard resolves to \<^verbatim>\<open>true\<close> and leaves the
  whole state as it was: no new scope, no write to any scope, and no effect of the
  setup hook, whatever the options are.
\<close>

theorem guard_skips_when_active:
  "isActive s \<Longrightarrow> canActivate opts request s = (Fulfilled True, s)"
  by (auto simp: canActivate_def isActive_def)

theorem guard_skips_when_active_witness:
  "isActive example_service
   \<and> canActivate \<lparr>opt_adapter = None, opt_setRequest = None, opt_setup = Some marking_hook\<rparr>
        example_request example_service = (Fulfilled True, example_service)"
  using guard_skips_when_active [OF isActive_example] isActive_example by simp

text \<open>
  C4, as the code has it. The guard, when no scope is ambient on entry (otherwise it
  does not invoke the hook), rejects its promise, and the interceptor errors its
  observable without emitting, whether the hook throws, returns a native promise that
  rejects, or returns any other awaitable that rejects. The Express middleware passes
  the error to \<^verbatim>\<open>next\<close> when the hook returns a native promise that rejects, and lets
  the exception leave \<^verbatim>\<open>use\<close>, without calling \<^verbatim>\<open>next\<close>, when the hook throws.
  \<open>mw_entry\<close> and \<open>entry\<close> are the states in which the hook is invoked.
\<close>

theorem setup_failure_propagates:
  assumes "opt_setup opts = Some setup"
    and "mw_entry = hook_entry opts (case opt_adapter opts of None \<Rightarrow> TExpress | Some a \<Rightarrow> a) req s"
    and "entry = hook_entry opts (configuredAdapterType opts req) req s"
  shows "(fst (setup req mw_entry) = Rejects e \<longrightarrow> fst (use opts req s) = NextCalled (Some e))
    \<and> (fst (setup req mw_entry) = Throws e \<longrightarrow> fst (use opts req s) = UseThrew e)
    \<and> (\<not> isActive s
         \<and> (fst (setup req entry) = Throws e \<or> fst (setup req entry) = Rejects e
              \<or> fst (setup req entry) = ThenableRejects e)
         \<longrightarrow> fst (canActivate opts req s) = Rejected e)
    \<and> (fst (setup req entry) = Throws e \<or> fst (setup req entry) = Rejects e
          \<or> fst (setup req entry) = ThenableRejects e
         \<longrightarrow> fst (intercept opts req handle s) = ([], Some e))"
proof -
  have mw: "fst (setup req mw_entry) = Rejects e \<Longrightarrow> fst (use opts req s) = NextCalled (Some e)"
    and mw_throw: "fst (setup req mw_entry) = Throws e \<Longrightarrow> fst (use opts req s) = UseThrew e"
    using assms(2) by (simp_all add: use_with_hook [OF assms(1)])
  have guard: "\<not> isActive s \<Longrightarrow>
      fst (setup req entry) = Throws e \<or> fst (setup req entry) = Rejects e
        \<or> fst (setup req entry) = ThenableRejects e
      \<Longrightarrow> fst (canActivate opts req s) = Rejected e"
    using assms(3) by (auto simp: canActivate_with_hook [OF assms(1)])
  have icpt: "fst (setup req entry) = Throws e \<or> fst (setup req entry) = Rejects e
        \<or> fst (setup req entry) = ThenableRejects e
      \<Longrightarrow> fst (intercept opts req handle s) = ([], Some e)"
    using assms(3) by (auto simp: intercept_with_hook [OF assms(1)] split: prod.splits)
  from mw mw_throw guard icpt show ?thesis by blast
qed

theorem setup_failure_propagates_witness:
  "fst (use \<lparr>opt_adapter = None, opt_setRequest = None, opt_setup = Some rejecting_hook\<rparr>
         example_request service_init) = NextCalled (Some (Thrown (JStr ''boom'')))
   \<and> fst (use \<lparr>opt_adapter = None, opt_setRequest = None, opt_setup = Some throwing_hook\<rparr>
         example_request service_init) = UseThrew (Thrown (JStr ''boom''))
   \<and> \<not> isActive service_init
   \<and> fst (canActivate \<lparr>opt_adapter = None, opt_setRequest = None, opt_setup = Some throwing_hook\<rparr>
         example_request service_init) = Rejected (Thrown (JStr ''boom''))
   \<and> fst (canActivate \<lparr>opt_adapter = None, opt_setRequest = None, opt_setup = Some rejecting_hook\<rparr>
         example_request service_init) = Rejected (Thrown (JStr ''boom''))
   \<and> fst (canActivate \<lparr>opt_adapter = None, opt_setRequest = None, opt_setup = Some thenable_hook\<rparr>
         example_request service_init) = Rejected (Thrown (JStr ''boom''))
   \<and> fst (intercept \<lparr>opt_adapter = None, opt_setRequest = None, opt_setup = Some throwing_hook\<rparr>
         example_request (\<lambda>s. (([JNum 1], None), s)) service_init) = ([], Some (Thrown (JStr ''boom'')))
   \<and> fst (intercept \<lparr>opt_adapter = None, opt_setRequest = None, opt_setup = Some rejecting_hook\<rparr>
         example_request (\<lambda>s. (([JNum 1], None), s)) service_init) = ([], Some (Thrown (JStr ''boom'')))
   \<and> fst (intercept \<lparr>opt_adapter = None, opt_setRequest = None, opt_setup = Some thenable_hook\<rparr>
         example_request (\<lambda>s. (([JNum 1], None), s)) service_init) = ([], Some (Thrown (JStr ''boom'')))"
proof -
  let ?e = "Thrown (JStr ''boom'')"
  let ?ot = "\<lparr>opt_adapter = None, opt_setRequest = None, opt_setup = Some throwing_hook\<rparr>"
  let ?or = "\<lparr>opt_adapter = None, opt_setRequest = None, opt_setup = Some rejecting_hook\<rparr>"
  let ?oa = "\<lparr>opt_adapter = None, opt_setRequest = None, opt_setup = Some thenable_hook\<rparr>"
  have t: "opt_setup ?ot = Some throwing_hook" and r: "opt_setup ?or = Some rejecting_hook"
    and a: "opt_setup ?oa = Some thenable_hook"
    by simp_all
  have ft: "\<And>x. fst (throwing_hook example_request x) = Throws ?e"
    and fr: "\<And>x. fst (rejecting_hook example_request x) = Rejects ?e"
    and fa: "\<And>x. fst (thenable_hook example_request x) = ThenableRejects ?e"
    by (simp_all add: throwing_hook_def rejecting_hook_def thenable_hook_def)
  from setup_failure_propagates [OF t refl refl, of example_request service_init ?e]
       setup_failure_propagates [OF r refl refl, of example_request service_init ?e]
       setup_failure_propagates [OF a refl refl, of example_request service_init ?e]
       ft fr fa not_isActive_init
  show ?thesis by simp
qed

text \<open>
  The claim C4 as stated fails for the Express middleware in two ways. A hook that
  throws makes \<^verbatim>\<open>use\<close> throw, and the error is not passed to \<^verbatim>\<open>next\<close>. A hook that
  returns a rejecting awaitable which is not a native promise is not waited for:
  \<^verbatim>\<open>next\<close> is called with no error, and the failure is reported nowhere.
\<close>

theorem middleware_failures_not_passed_to_next:
  "fst (use \<lparr>opt_adapter = None, opt_setRequest = None, opt_setup = Some throwing_hook\<rparr>
         example_request service_init)
     = UseThrew (Thrown (JStr ''boom''))
   \<and> fst (use \<lparr>opt_adapter = None, opt_setRequest = None, opt_setup = Some thenable_hook\<rparr>
         example_request service_init)
     = NextCalled None"
  by (simp add: use_with_hook throwing_hook_def thenable_hook_def)

end
